theory Spec2Isabelle
  imports Main "HOL-Library.Word"
begin

unbundle bit_operations_syntax

section \<open>The HTTP front door of the APM server (beater/server.go)\<close>

text \<open>
  A shallow embedding of \<^verbatim>\<open>src/beater/server.go\<close>. Go strings and byte slices are
  byte sequences, modelled as \<^typ>\<open>char list\<close> (a \<^typ>\<open>char\<close> is one byte, so the
  conversion \<^verbatim>\<open>[]byte(s)\<close> is the identity). A Go \<^verbatim>\<open>error\<close> value is modelled by
  the message it carries; \<^verbatim>\<open>nil\<close> is \<open>None\<close> of an option.
\<close>

subsection \<open>Values of the Go runtime and standard library\<close>

type_synonym byte = char

datatype go_error = errors_New (Error: string)

text \<open>
  \<^verbatim>\<open>http.Header\<close> is \<^verbatim>\<open>map[string][]string\<close>. \<^verbatim>\<open>Get\<close> returns the first value of
  the key, or the empty string when the key is absent; \<^verbatim>\<open>Set\<close> replaces the values of
  the key by the single given one. Every key the source uses is already in canonical form.
\<close>

type_synonym http_Header = "string \<rightharpoonup> string list"

definition Header_Get :: "http_Header \<Rightarrow> string \<Rightarrow> string" where
  "Header_Get h key = (case h key of None \<Rightarrow> [] | Some [] \<Rightarrow> [] | Some (v # _) \<Rightarrow> v)"

definition Header_Set :: "http_Header \<Rightarrow> string \<Rightarrow> string \<Rightarrow> http_Header" where
  "Header_Set h key v = h(key \<mapsto> [v])"

text \<open>
  \<^verbatim>\<open>strings.Split(s, sep)\<close> for a separator of one byte (the source only splits on
  \<^verbatim>\<open>" "\<close>): the pieces between consecutive separators, so \<^verbatim>\<open>Split("", " ")\<close> is the
  one-element list holding the empty string.
\<close>

fun Split :: "string \<Rightarrow> char \<Rightarrow> string list" where
  "Split [] sep = [[]]"
| "Split (c # cs) sep =
     (if c = sep then [] # Split cs sep
      else (case Split cs sep of [] \<Rightarrow> [[c]] | p # ps \<Rightarrow> (c # p) # ps))"

text \<open>
  \<^verbatim>\<open>strings.Contains(s, substr)\<close>: \<open>substr\<close> occurs in \<open>s\<close> as a contiguous run.
\<close>

fun HasPrefix :: "string \<Rightarrow> string \<Rightarrow> bool" where
  "HasPrefix s [] = True"
| "HasPrefix [] (p # ps) = False"
| "HasPrefix (c # cs) (p # ps) = (c = p \<and> HasPrefix cs ps)"

fun Contains :: "string \<Rightarrow> string \<Rightarrow> bool" where
  "Contains [] substr = (substr = [])"
| "Contains (c # cs) substr = (HasPrefix (c # cs) substr \<or> Contains cs substr)"

text \<open>
  \<^verbatim>\<open>subtle.ConstantTimeCompare(x, y)\<close>: 0 when the lengths differ; otherwise the loop
  \<^verbatim>\<open>v |= x[i] ^ y[i]\<close> over all positions, and \<^verbatim>\<open>ConstantTimeByteEq(v, 0)\<close>, which is
  1 if its arguments are equal and 0 otherwise.
\<close>

definition ConstantTimeByteEq :: "8 word \<Rightarrow> 8 word \<Rightarrow> int" where
  "ConstantTimeByteEq x y = (if x = y then 1 else 0)"

fun ConstantTimeCompare_loop :: "byte list \<Rightarrow> byte list \<Rightarrow> 8 word \<Rightarrow> 8 word" where
  "ConstantTimeCompare_loop (a # x) (b # y) v =
     ConstantTimeCompare_loop x y (v OR (of_char a XOR of_char b))"
| "ConstantTimeCompare_loop x y v = v"

definition ConstantTimeCompare :: "byte list \<Rightarrow> byte list \<Rightarrow> int" where
  "ConstantTimeCompare x y =
     (if length x \<noteq> length y then 0
      else ConstantTimeByteEq (ConstantTimeCompare_loop x y 0) 0)"

text \<open>
  An \<^verbatim>\<open>io.Reader\<close> as the source observes it: the bytes it has still to deliver
  (\<open>pending\<close>), how it ends after the last of them (\<open>ending\<close>: \<open>None\<close> is \<^verbatim>\<open>io.EOF\<close>,
  \<open>Some e\<close> a read error), and whether the end is reported by the very \<^verbatim>\<open>Read\<close> call
  that delivers the last byte (\<open>eager\<close>) or by the next one; the \<^verbatim>\<open>io.Reader\<close> contract
  allows both.
\<close>

record reader =
  pending :: "byte list"
  ending :: "go_error option"
  eager :: bool

record Request =
  Method :: string
  RequestURI :: string
  ContentLength :: int
  Header :: http_Header
  Body :: "reader option"

subsection \<open>Authentication\<close>

definition isAuthorized :: "Request \<Rightarrow> string \<Rightarrow> bool" where
  "isAuthorized req secretToken =
     (if secretToken = [] then True
      else
        let header = Header_Get (Header req) ''Authorization'';
            parts = Split header CHR '' ''
        in if length parts \<noteq> 2 \<or> parts ! 0 \<noteq> ''Bearer'' then False
           else ConstantTimeCompare (parts ! 1) secretToken = 1)"

subsection \<open>Reading a bounded number of bytes\<close>

text \<open>
  What a \<^verbatim>\<open>Read\<close> call returns besides the bytes: \<open>None\<close> is a \<^verbatim>\<open>nil\<close> error,
  \<open>Some EOF\<close> is \<^verbatim>\<open>io.EOF\<close>, \<open>Some (Failure e)\<close> any other error.
\<close>

datatype read_end = EOF | Failure go_error

definition reader_end :: "reader \<Rightarrow> read_end" where
  "reader_end r = (case ending r of None \<Rightarrow> EOF | Some e \<Rightarrow> Failure e)"

text \<open>\<^verbatim>\<open>r.Read(p)\<close> with \<open>k = len(p)\<close>: the bytes, the error, and the reader afterwards.\<close>

definition Read :: "reader \<Rightarrow> nat \<Rightarrow> byte list \<times> read_end option \<times> reader" where
  "Read r k =
     (if pending r = [] then ([], Some (reader_end r), r)
      else if length (pending r) \<le> k \<and> eager r
        then (pending r, Some (reader_end r), r\<lparr>pending := []\<rparr>)
      else (take k (pending r), None, r\<lparr>pending := drop k (pending r)\<rparr>))"

text \<open>
  \<^verbatim>\<open>io.LimitReader(r, n)\<close> returns \<^verbatim>\<open>&LimitedReader{r, n}\<close>, whose \<^verbatim>\<open>Read\<close> is
  \<^verbatim>\<open>
  if l.N <= 0 { return 0, EOF }
  if int64(len(p)) > l.N { p = p[0:l.N] }
  n, err = l.R.Read(p)
  l.N -= int64(n)
  return
  \<close>
  The \<^verbatim>\<open>int64\<close> count \<open>N\<close> only ever decreases towards zero, so it is an \<^typ>\<open>int\<close> here.
\<close>

record LimitedReader =
  R :: reader
  N :: int

definition LimitReader :: "reader \<Rightarrow> int \<Rightarrow> LimitedReader" where
  "LimitReader r n = \<lparr>R = r, N = n\<rparr>"

definition LimitedReader_Read ::
  "LimitedReader \<Rightarrow> nat \<Rightarrow> byte list \<times> read_end option \<times> LimitedReader" where
  "LimitedReader_Read l k =
     (if N l \<le> 0 then ([], Some EOF, l)
      else
        let k' = (if int k > N l then nat (N l) else k);
            (bs, e, r') = Read (R l) k'
        in (bs, e, l\<lparr>R := r', N := N l - int (length bs)\<rparr>))"

text \<open>
  \<^verbatim>\<open>ioutil.ReadAll\<close> reads into a growing \<^verbatim>\<open>bytes.Buffer\<close>: it calls \<^verbatim>\<open>Read\<close> with the
  free room of the buffer, which is at least \<^verbatim>\<open>bytes.MinRead\<close> bytes, appends what it
  gets, and stops at the first error: \<^verbatim>\<open>io.EOF\<close> ends the read with a \<^verbatim>\<open>nil\<close> error,
  any other error is returned with the bytes read so far. How much room the buffer offers
  once it holds a given number of bytes is its growth policy, the parameter \<open>room\<close>.
\<close>

definition MinRead :: nat where
  "MinRead = 512"

function ReadAll_loop ::
  "(nat \<Rightarrow> nat) \<Rightarrow> LimitedReader \<Rightarrow> byte list \<Rightarrow> byte list \<times> go_error option" where
  "ReadAll_loop room l buf =
     (case LimitedReader_Read l (max MinRead (room (length buf))) of
        (bs, None, l') \<Rightarrow> ReadAll_loop room l' (buf @ bs)
      | (bs, Some EOF, l') \<Rightarrow> (buf @ bs, None)
      | (bs, Some (Failure e), l') \<Rightarrow> (buf @ bs, Some e))"
  by pat_completeness auto
termination
  by (relation "measure (\<lambda>(room, l, buf). length (pending (R l)))")
     (auto simp: LimitedReader_Read_def Read_def MinRead_def Let_def
        split: if_splits prod.splits)

declare ReadAll_loop.simps [simp del]

definition ReadAll :: "(nat \<Rightarrow> nat) \<Rightarrow> LimitedReader \<Rightarrow> byte list \<times> go_error option" where
  "ReadAll room l = ReadAll_loop room l []"

subsection \<open>Decoding the request body\<close>

text \<open>
  The functions of the Go standard library that the source calls and that are taken as
  given: the constructors of the gzip and zlib decompressing readers (each fails on a
  malformed stream header), the JSON encoder of an object with string members, and the
  growth policy of the buffer that \<^verbatim>\<open>ioutil.ReadAll\<close> reads into.
\<close>

record library =
  gzip_NewReader :: "reader \<Rightarrow> go_error + reader"
  zlib_NewReader :: "reader \<Rightarrow> go_error + reader"
  json_Marshal :: "(string \<times> string) list \<Rightarrow> byte list \<times> go_error option"
  buffer_room :: "nat \<Rightarrow> nat"

definition decodeData :: "library \<Rightarrow> Request \<Rightarrow> go_error + reader" where
  "decodeData lib req =
     (if Header_Get (Header req) ''Content-Type'' \<noteq> ''application/json''
      then Inl (errors_New (''invalid content type: '' @ Header_Get (Header req) ''Content-Type''))
      else
        case Body req of
          None \<Rightarrow> Inl (errors_New ''No content supplied'')
        | Some reader \<Rightarrow>
            if Header_Get (Header req) ''Content-Encoding'' = ''deflate''
              then zlib_NewReader lib reader
            else if Header_Get (Header req) ''Content-Encoding'' = ''gzip''
              then gzip_NewReader lib reader
            else Inr reader)"

subsection \<open>The request pipeline\<close>

text \<open>
  The collaborators: a processor validates a payload and transforms it into events, a
  reporter takes the events. The pipeline's outcome is the pair that \<^verbatim>\<open>processRequest\<close>
  returns, together with the calls it made to its collaborators, in order (the deferred
  \<^verbatim>\<open>reader.Close()\<close> comes last).
\<close>

record 'ev Processor =
  Validate :: "byte list \<Rightarrow> go_error option"
  Transform :: "byte list \<Rightarrow> 'ev list \<times> go_error option"

type_synonym 'ev reporter = "'ev list \<Rightarrow> go_error option"

datatype 'ev call =
  Validate_call "byte list"
  | Transform_call "byte list"
  | report_call "'ev list"
  | Close_call

record 'ev outcome =
  code :: int
  err :: "go_error option"
  calls :: "'ev call list"

definition errInvalidToken :: go_error where
  "errInvalidToken = errors_New ''invalid token''"

definition errPOSTRequestOnly :: go_error where
  "errPOSTRequestOnly = errors_New ''only POST requests are supported''"

definition processRequest ::
  "library \<Rightarrow> Request \<Rightarrow> 'ev Processor \<Rightarrow> int \<Rightarrow> 'ev reporter \<Rightarrow> 'ev outcome" where
  "processRequest lib r p maxSize report =
     (if Method r \<noteq> ''POST''
      then \<lparr>code = 405, err = Some errPOSTRequestOnly, calls = []\<rparr>
      else
        case decodeData lib r of
          Inl e \<Rightarrow>
            \<lparr>code = 400, err = Some (errors_New (''Decoding error: '' @ Error e)), calls = []\<rparr>
        | Inr reader \<Rightarrow>
            (case ReadAll (buffer_room lib) (LimitReader reader maxSize) of
               (buf, Some e) \<Rightarrow>
                 \<lparr>code = 500, err = Some (errors_New (''Data read error: '' @ Error e)),
                  calls = [Close_call]\<rparr>
             | (buf, None) \<Rightarrow>
                 (case Validate p buf of
                    Some e \<Rightarrow>
                      \<lparr>code = 400, err = Some e, calls = [Validate_call buf, Close_call]\<rparr>
                  | None \<Rightarrow>
                      (case Transform p buf of
                         (list, Some e) \<Rightarrow>
                           \<lparr>code = 400, err = Some e,
                            calls = [Validate_call buf, Transform_call buf, Close_call]\<rparr>
                       | (list, None) \<Rightarrow>
                           (case report list of
                              Some e \<Rightarrow>
                                \<lparr>code = 503, err = Some e,
                                 calls = [Validate_call buf, Transform_call buf,
                                          report_call list, Close_call]\<rparr>
                            | None \<Rightarrow>
                                \<lparr>code = 202, err = None,
                                 calls = [Validate_call buf, Transform_call buf,
                                          report_call list, Close_call]\<rparr>)))))"

subsection \<open>Counters, log and response writer\<close>

text \<open>
  The process-wide state the handlers act on: the three monitoring counters (64-bit
  integers incremented atomically, so \<open>+ 1\<close> wraps), the log as the list of \<^verbatim>\<open>logp\<close>
  calls (format and arguments, unformatted), and the calls made to the collaborators.
\<close>

datatype arg = StringArg string | IntArg int | ErrorArg go_error

datatype log_entry =
  logp_Debug string string "arg list"
  | logp_Info string "arg list"
  | logp_Warn string "arg list"
  | logp_Err string "arg list"

record 'ev state =
  requestCounter :: "64 word"
  responseValid :: "64 word"
  responseErrors :: "64 word"
  logged :: "log_entry list"
  invoked :: "'ev call list"

definition logp :: "log_entry \<Rightarrow> 'ev state \<Rightarrow> 'ev state" where
  "logp entry s = s\<lparr>logged := logged s @ [entry]\<rparr>"

text \<open>
  An \<^verbatim>\<open>http.ResponseWriter\<close>: the header map the handler edits, the status line once
  written (the status code with the headers as they stood at that moment; a second
  \<^verbatim>\<open>WriteHeader\<close> is ignored), and the body bytes written. \<^verbatim>\<open>Write\<close> writes status
  200 first when no status has been written.
\<close>

record ResponseWriter =
  w_Header :: http_Header
  wroteHeader :: "(int \<times> http_Header) option"
  written :: "byte list"

definition NewResponseWriter :: ResponseWriter where
  "NewResponseWriter = \<lparr>w_Header = Map.empty, wroteHeader = None, written = []\<rparr>"

definition WriteHeader :: "ResponseWriter \<Rightarrow> int \<Rightarrow> ResponseWriter" where
  "WriteHeader w c =
     (if wroteHeader w \<noteq> None then w else w\<lparr>wroteHeader := Some (c, w_Header w)\<rparr>)"

definition Write :: "ResponseWriter \<Rightarrow> byte list \<Rightarrow> ResponseWriter" where
  "Write w b = (let w' = WriteHeader w 200 in w'\<lparr>written := written w' @ b\<rparr>)"

subsection \<open>The status responder\<close>

definition acceptsJSON :: "Request \<Rightarrow> bool" where
  "acceptsJSON r =
     (let h = Header_Get (Header r) ''Accept''
      in Contains h ''*/*'' \<or> Contains h ''application/json'')"

definition sendJSON ::
  "library \<Rightarrow> (string \<times> string) list \<Rightarrow> 'ev state \<Rightarrow> ResponseWriter
     \<Rightarrow> 'ev state \<times> ResponseWriter" where
  "sendJSON lib msg s w =
     (case json_Marshal lib msg of
        (buf, Some e) \<Rightarrow>
          (logp (logp_Err ''Error while generating a JSON error response: %v'' [ErrorArg e]) s, w)
      | (buf, None) \<Rightarrow> (s, Write w buf))"

definition sendPlain :: "string \<Rightarrow> 'ev state \<Rightarrow> ResponseWriter \<Rightarrow> 'ev state \<times> ResponseWriter" where
  "sendPlain msg s w = (s, Write w msg)"

definition sendStatus ::
  "library \<Rightarrow> Request \<Rightarrow> int \<Rightarrow> go_error option \<Rightarrow> 'ev state \<Rightarrow> ResponseWriter
     \<Rightarrow> 'ev state \<times> ResponseWriter" where
  "sendStatus lib r c e s w =
     (let content_type =
            (if acceptsJSON r then ''application/json'' else ''text/plain; charset=utf-8'');
          w1 = w\<lparr>w_Header := Header_Set (w_Header w) ''Content-Type'' content_type\<rparr>;
          w2 = WriteHeader w1 c
      in case e of
           None \<Rightarrow>
             (logp (logp_Debug ''request'' ''request successful, code=%d'' [IntArg c])
                (s\<lparr>responseValid := responseValid s + 1\<rparr>), w2)
         | Some e' \<Rightarrow>
             let s1 = logp (logp_Err ''%s, code=%d'' [StringArg (Error e'), IntArg c]) s;
                 s2 = s1\<lparr>responseErrors := responseErrors s1 + 1\<rparr>
             in if acceptsJSON r then sendJSON lib [(''error'', Error e')] s2 w2
                else sendPlain (Error e') s2 w2)"

subsection \<open>Handlers and the route table\<close>

type_synonym 'ev handler =
  "Request \<Rightarrow> 'ev state \<Rightarrow> ResponseWriter \<Rightarrow> 'ev state \<times> ResponseWriter"

text \<open>The fields of \<^verbatim>\<open>Config\<close> that the handlers read.\<close>

record Config =
  SecretToken :: string
  MaxUnzippedSize :: int

definition logHandler :: "'ev handler \<Rightarrow> 'ev handler" where
  "logHandler h r s w =
     (let s1 = logp (logp_Debug ''handler'' ''Request: URI=%s, method=%s, content-length=%d''
                  [StringArg (RequestURI r), StringArg (Method r), IntArg (ContentLength r)]) s;
          s2 = s1\<lparr>requestCounter := requestCounter s1 + 1\<rparr>
      in h r s2 w)"

definition authHandler :: "library \<Rightarrow> string \<Rightarrow> 'ev handler \<Rightarrow> 'ev handler" where
  "authHandler lib secretToken h r s w =
     (if \<not> isAuthorized r secretToken then sendStatus lib r 401 (Some errInvalidToken) s w
      else h r s w)"

definition appHandler ::
  "library \<Rightarrow> 'ev Processor \<Rightarrow> Config \<Rightarrow> 'ev reporter \<Rightarrow> 'ev handler" where
  "appHandler lib p config report r s w =
     (let out = processRequest lib r p (MaxUnzippedSize config) report
      in sendStatus lib r (code out) (err out) (s\<lparr>invoked := invoked s @ calls out\<rparr>) w)"

text \<open>The function that \<^verbatim>\<open>newMuxer\<close> registers for \<^verbatim>\<open>/healthcheck\<close>.\<close>

definition healthcheck :: "'ev handler" where
  "healthcheck r s w =
     (let s1 = s\<lparr>requestCounter := requestCounter s + 1\<rparr>;
          w1 = WriteHeader w 200;
          s2 = s1\<lparr>responseValid := responseValid s1 + 1\<rparr>
      in (s2, w1))"

text \<open>
  An \<^verbatim>\<open>http.ServeMux\<close> as the table of its registered patterns. \<^verbatim>\<open>Handle\<close> panics
  (\<open>None\<close>) on an empty pattern and on a pattern registered before. The registry of
  processors is the list of its (path, processor) entries in the order the \<^verbatim>\<open>range\<close>
  loop visits them.
\<close>

type_synonym 'ev ServeMux = "string \<rightharpoonup> 'ev handler"

definition mux_Handle :: "'ev ServeMux \<Rightarrow> string \<Rightarrow> 'ev handler \<Rightarrow> 'ev ServeMux option" where
  "mux_Handle mux pattern h =
     (if pattern = [] \<or> mux pattern \<noteq> None then None else Some (mux(pattern \<mapsto> h)))"

fun newMuxer_loop ::
  "library \<Rightarrow> Config \<Rightarrow> 'ev reporter \<Rightarrow> (string \<times> 'ev Processor) list
     \<Rightarrow> 'ev state \<Rightarrow> 'ev ServeMux \<Rightarrow> ('ev state \<times> 'ev ServeMux) option" where
  "newMuxer_loop lib config report [] s mux = Some (s, mux)"
| "newMuxer_loop lib config report ((path, p) # rest) s mux =
     (let handler = appHandler lib p config report;
          s1 = logp (logp_Info ''Path %s added to request handler'' [StringArg path]) s
      in case mux_Handle mux path (logHandler (authHandler lib (SecretToken config) handler)) of
           None \<Rightarrow> None
         | Some mux1 \<Rightarrow> newMuxer_loop lib config report rest s1 mux1)"

definition newMuxer ::
  "library \<Rightarrow> Config \<Rightarrow> 'ev reporter \<Rightarrow> (string \<times> 'ev Processor) list
     \<Rightarrow> 'ev state \<Rightarrow> ('ev state \<times> 'ev ServeMux) option" where
  "newMuxer lib config report registry s =
     (case newMuxer_loop lib config report registry s Map.empty of
        None \<Rightarrow> None
      | Some (s1, mux) \<Rightarrow>
          (case mux_Handle mux ''/healthcheck'' healthcheck of
             None \<Rightarrow> None
           | Some mux1 \<Rightarrow> Some (s1, mux1)))"

text \<open>Serving a sequence of requests with one handler, each on a fresh response writer.\<close>

fun serve_all ::
  "'ev handler \<Rightarrow> Request list \<Rightarrow> 'ev state \<Rightarrow> 'ev state \<times> ResponseWriter list" where
  "serve_all h [] s = (s, [])"
| "serve_all h (r # rs) s =
     (let (s1, w) = h r s NewResponseWriter;
          (s2, ws) = serve_all h rs s1
      in (s2, w # ws))"

subsection \<open>Stopping the server\<close>

text \<open>
  An \<^verbatim>\<open>http.Server\<close> as what its two shutdown methods answer: \<^verbatim>\<open>Shutdown\<close> under a
  context that expires after the given duration, and \<^verbatim>\<open>Close\<close>. \<^verbatim>\<open>stop\<close> has no
  result and never panics; \<open>propagated\<close> is the error that leaves it towards its
  caller.
\<close>

record Server =
  Shutdown :: "int \<Rightarrow> go_error option"
  Close :: "go_error option"

datatype server_call = Shutdown_call int | server_Close_call

record 'ev stopped =
  state_after :: "'ev state"
  server_calls :: "server_call list"
  propagated :: "go_error option"

definition stop :: "Server \<Rightarrow> int \<Rightarrow> 'ev state \<Rightarrow> 'ev stopped" where
  "stop server timeout s =
     (case Shutdown server timeout of
        None \<Rightarrow>
          \<lparr>state_after = s, server_calls = [Shutdown_call timeout], propagated = None\<rparr>
      | Some e \<Rightarrow>
          let s1 = logp (logp_Err (Error e) []) s
          in case Close server of
               None \<Rightarrow>
                 \<lparr>state_after = s1, server_calls = [Shutdown_call timeout, server_Close_call],
                  propagated = None\<rparr>
             | Some e' \<Rightarrow>
                 \<lparr>state_after = logp (logp_Err (Error e') []) s1,
                  server_calls = [Shutdown_call timeout, server_Close_call],
                  propagated = None\<rparr>)"

subsection \<open>Example inputs\<close>

text \<open>
  Concrete requests and collaborators at which the theorems below are instantiated: a
  reader over given bytes that ends with \<^verbatim>\<open>io.EOF\<close>, requests with given headers, a
  processor that accepts every payload and one that rejects every payload, and a library
  whose gzip reader yields a fixed decompressed stream and whose zlib reader rejects the
  stream header.
\<close>

definition bytes_reader :: "byte list \<Rightarrow> reader" where
  "bytes_reader bs = \<lparr>pending = bs, ending = None, eager = False\<rparr>"

definition new_request :: "string \<Rightarrow> (string \<times> string) list \<Rightarrow> byte list \<Rightarrow> Request" where
  "new_request m hs body =
     \<lparr>Method = m, RequestURI = ''/v1/errors'', ContentLength = int (length body),
      Header = map_of (map (\<lambda>(k, v). (k, [v])) hs), Body = Some (bytes_reader body)\<rparr>"

definition example_library :: library where
  "example_library =
     \<lparr>gzip_NewReader = (\<lambda>r. Inr (bytes_reader ''{}'')),
      zlib_NewReader = (\<lambda>r. Inl (errors_New ''zlib: invalid header'')),
      json_Marshal = (\<lambda>msg. (concat (map (\<lambda>(k, v). k @ ''='' @ v) msg), None)),
      buffer_room = (\<lambda>n. MinRead + n)\<rparr>"

definition accepting :: "unit Processor" where
  "accepting = \<lparr>Validate = (\<lambda>buf. None), Transform = (\<lambda>buf. ([], None))\<rparr>"

definition rejecting :: "unit Processor" where
  "rejecting =
     \<lparr>Validate = (\<lambda>buf. Some (errors_New ''Problem validating JSON document against schema'')),
      Transform = (\<lambda>buf. ([], None))\<rparr>"

definition delivering :: "unit reporter" where
  "delivering events = None"

definition initial_state :: "unit state" where
  "initial_state =
     \<lparr>requestCounter = 0, responseValid = 0, responseErrors = 0, logged = [], invoked = []\<rparr>"

definition example_config :: Config where
  "example_config = \<lparr>SecretToken = ''s3cret'', MaxUnzippedSize = 100\<rparr>"

text \<open>A server whose graceful shutdown times out and whose forced close fails as well.\<close>

definition failing_server :: Server where
  "failing_server =
     \<lparr>Shutdown = (\<lambda>timeout. Some (errors_New ''context deadline exceeded'')),
      Close = Some (errors_New ''close tcp: use of closed network connection'')\<rparr>"

section \<open>Properties\<close>

subsection \<open>Library functions\<close>

lemma unat_of_char: "unat (of_char a :: 8 word) = of_char a"
proof -
  have "(of_char a :: 8 word) = of_nat (of_char a :: nat)"
    by (rule of_nat_of_char [symmetric])
  then have "unat (of_char a :: 8 word) = (of_char a :: nat) mod 2 ^ 8"
    by (simp add: unat_of_nat)
  moreover have "(of_char a :: nat) < 256"
    by (rule nat_of_char_less_256)
  ultimately show ?thesis by simp
qed

lemma of_char_word_eq_iff: "((of_char a :: 8 word) = of_char b) \<longleftrightarrow> a = b"
proof
  assume "(of_char a :: 8 word) = of_char b"
  then have "unat (of_char a :: 8 word) = unat (of_char b :: 8 word)"
    by simp
  then have "(of_char a :: nat) = of_char b"
    by (simp only: unat_of_char)
  then show "a = b" by simp
qed simp

lemma byte_xor_eq_0_iff: "(of_char a XOR of_char b) = (0 :: 8 word) \<longleftrightarrow> a = b"
proof -
  have "(x XOR y) = 0 \<longleftrightarrow> x = y" for x y :: "8 word"
    by (metis bit.xor_left_self xor.right_neutral)
  then show ?thesis by (simp add: of_char_word_eq_iff)
qed

lemma ConstantTimeCompare_loop_eq_0:
  "length x = length y \<Longrightarrow> ConstantTimeCompare_loop x y v = 0 \<longleftrightarrow> v = 0 \<and> x = y"
proof (induction x y v rule: ConstantTimeCompare_loop.induct)
  case (1 a x b y v)
  then show ?case
    by (auto simp: or_eq_0_iff byte_xor_eq_0_iff)
qed auto

lemma ConstantTimeCompare_eq_1_iff: "ConstantTimeCompare x y = 1 \<longleftrightarrow> x = y"
  by (auto simp: ConstantTimeCompare_def ConstantTimeByteEq_def ConstantTimeCompare_loop_eq_0)

lemma Split_not_Nil: "Split s c \<noteq> []"
  by (induction s) (auto split: list.splits)

lemma Split_no_sep: "c \<notin> set s \<Longrightarrow> Split s c = [s]"
  by (induction s) auto

lemma Split_at_first_sep: "c \<notin> set a \<Longrightarrow> Split (a @ c # b) c = a # Split b c"
  by (induction a) auto

lemma length_Split: "length (Split s c) = Suc (length (filter (\<lambda>x. x = c) s))"
proof (induction s)
  case Nil
  show ?case by simp
next
  case (Cons x s)
  then show ?case
    using Split_not_Nil [of s c] by (cases "Split s c") auto
qed

lemma Split_two_iff:
  "Split s c = [a, b] \<longleftrightarrow> s = a @ c # b \<and> c \<notin> set a \<and> c \<notin> set b"
proof
  assume "Split s c = [a, b]"
  then show "s = a @ c # b \<and> c \<notin> set a \<and> c \<notin> set b"
  proof (induction s arbitrary: a)
    case Nil
    then show ?case by simp
  next
    case (Cons x s)
    show ?case
    proof (cases "x = c")
      case True
      with Cons.prems have a: "a = []" and s: "Split s c = [b]"
        by auto
      from s have "length (filter (\<lambda>x. x = c) s) = 0"
        using length_Split [of s c] by simp
      then have "c \<notin> set s"
        by (auto simp: filter_empty_conv)
      then have "b = s"
        using s by (simp add: Split_no_sep)
      with a True \<open>c \<notin> set s\<close> show ?thesis by simp
    next
      case False
      with Cons.prems obtain a' where a: "a = x # a'" and s: "Split s c = [a', b]"
        by (auto split: list.splits)
      from Cons.IH [OF s] a False show ?thesis by simp
    qed
  qed
next
  assume "s = a @ c # b \<and> c \<notin> set a \<and> c \<notin> set b"
  then show "Split s c = [a, b]"
    by (simp add: Split_at_first_sep Split_no_sep)
qed

subsection \<open>Authentication\<close>

lemma isAuthorized_iff:
  "isAuthorized req secretToken \<longleftrightarrow>
     secretToken = [] \<or>
     (Header_Get (Header req) ''Authorization'' = ''Bearer '' @ secretToken
        \<and> CHR '' '' \<notin> set secretToken)"
proof (cases "secretToken = []")
  case True
  then show ?thesis by (simp add: isAuthorized_def)
next
  case False
  let ?h = "Header_Get (Header req) ''Authorization''"
  let ?parts = "Split ?h CHR '' ''"
  have "isAuthorized req secretToken \<longleftrightarrow> ?parts = [''Bearer'', secretToken]"
  proof
    assume auth: "isAuthorized req secretToken"
    then have len: "length ?parts = 2" and p0: "?parts ! 0 = ''Bearer''"
      and p1: "?parts ! 1 = secretToken"
      using False
      by (auto simp: isAuthorized_def Let_def ConstantTimeCompare_eq_1_iff split: if_splits)
    from len obtain u v where uv: "?parts = [u, v]"
      by (cases ?parts; cases "tl ?parts") auto
    with p0 p1 show "?parts = [''Bearer'', secretToken]"
      by simp
  next
    assume "?parts = [''Bearer'', secretToken]"
    then show "isAuthorized req secretToken"
      by (simp add: isAuthorized_def Let_def ConstantTimeCompare_eq_1_iff)
  qed
  also have "\<dots> \<longleftrightarrow> ?h = ''Bearer '' @ secretToken \<and> CHR '' '' \<notin> set secretToken"
    by (auto simp: Split_two_iff)
  finally show ?thesis using False by simp
qed

lemma wrong_scheme_parts:
  assumes "scheme \<noteq> ''Bearer''"
  shows "Split (scheme @ CHR '' '' # T) CHR '' '' \<noteq> [''Bearer'', S]"
proof
  assume eq: "Split (scheme @ CHR '' '' # T) CHR '' '' = [''Bearer'', S]"
  show False
  proof (cases "CHR '' '' \<in> set scheme")
    case False
    then have "Split (scheme @ CHR '' '' # T) CHR '' '' = scheme # Split T CHR '' ''"
      by (rule Split_at_first_sep)
    with eq assms show False by simp
  next
    case True
    then have "filter (\<lambda>x. x = CHR '' '') scheme \<noteq> []"
      by (simp add: filter_empty_conv)
    then have "length (filter (\<lambda>x. x = CHR '' '') scheme) \<ge> 1"
      by (simp add: Suc_le_eq)
    then have "length (Split (scheme @ CHR '' '' # T) CHR '' '') \<ge> 3"
      by (simp add: length_Split)
    with eq show False by simp
  qed
qed

text \<open>
  C3, as amended. \<^verbatim>\<open>isAuthorized\<close> returns true for every request when the configured
  secret is empty. When the secret \<open>S\<close> is not empty, it returns true for the header
  "Bearer S" provided \<open>S\<close> contains no space, and false for "Bearer T" with \<open>T \<noteq> S\<close>,
  for a scheme name other than "Bearer", for a header that does not split into exactly
  two parts at its spaces, and for an empty or absent header.
\<close>

theorem isAuthorized_cases:
  "isAuthorized req [] \<and>
   (S \<noteq> [] \<and> CHR '' '' \<notin> set S \<and>
      Header_Get (Header req) ''Authorization'' = ''Bearer '' @ S \<longrightarrow> isAuthorized req S) \<and>
   (S \<noteq> [] \<and> T \<noteq> S \<and>
      Header_Get (Header req) ''Authorization'' = ''Bearer '' @ T \<longrightarrow> \<not> isAuthorized req S) \<and>
   (S \<noteq> [] \<and> scheme \<noteq> ''Bearer'' \<and>
      Header_Get (Header req) ''Authorization'' = scheme @ '' '' @ T \<longrightarrow> \<not> isAuthorized req S) \<and>
   (S \<noteq> [] \<and> length (Split (Header_Get (Header req) ''Authorization'') CHR '' '') \<noteq> 2
      \<longrightarrow> \<not> isAuthorized req S) \<and>
   (S \<noteq> [] \<and> (Header req ''Authorization'' = None \<or>
      Header_Get (Header req) ''Authorization'' = []) \<longrightarrow> \<not> isAuthorized req S)"
proof (intro conjI impI)
  show "isAuthorized req []"
    by (simp add: isAuthorized_def)
next
  assume "S \<noteq> [] \<and> CHR '' '' \<notin> set S \<and>
      Header_Get (Header req) ''Authorization'' = ''Bearer '' @ S"
  then show "isAuthorized req S"
    by (simp add: isAuthorized_iff)
next
  assume "S \<noteq> [] \<and> T \<noteq> S \<and> Header_Get (Header req) ''Authorization'' = ''Bearer '' @ T"
  then show "\<not> isAuthorized req S"
    by (auto simp: isAuthorized_iff)
next
  assume a: "S \<noteq> [] \<and> scheme \<noteq> ''Bearer'' \<and>
      Header_Get (Header req) ''Authorization'' = scheme @ '' '' @ T"
  show "\<not> isAuthorized req S"
  proof
    assume "isAuthorized req S"
    with a have "Header_Get (Header req) ''Authorization'' = ''Bearer '' @ S"
      and "CHR '' '' \<notin> set S"
      by (simp_all add: isAuthorized_iff)
    then have "Split (Header_Get (Header req) ''Authorization'') CHR '' '' = [''Bearer'', S]"
      by (simp add: Split_no_sep)
    with a have "Split (scheme @ CHR '' '' # T) CHR '' '' = [''Bearer'', S]"
      by simp
    with wrong_scheme_parts a show False by blast
  qed
next
  assume "S \<noteq> [] \<and> length (Split (Header_Get (Header req) ''Authorization'') CHR '' '') \<noteq> 2"
  then show "\<not> isAuthorized req S"
    by (simp add: isAuthorized_def Let_def)
next
  assume a: "S \<noteq> [] \<and> (Header req ''Authorization'' = None \<or>
      Header_Get (Header req) ''Authorization'' = [])"
  then have "Header_Get (Header req) ''Authorization'' = []"
    by (auto simp: Header_Get_def)
  with a show "\<not> isAuthorized req S"
    by (simp add: isAuthorized_def)
qed

text \<open>
  C3 as stated fails for a secret that contains a space: the header "Bearer a b" splits
  into three parts and is refused although the secret is "a b".
\<close>

theorem secret_with_space_rejected:
  "\<not> isAuthorized (new_request ''POST'' [(''Authorization'', ''Bearer a b'')] []) ''a b''"
  by (simp add: isAuthorized_def new_request_def Header_Get_def)


theorem isAuthorized_cases_witness:
  "isAuthorized (new_request ''POST'' [] []) [] \<and>
   Header_Get (Header (new_request ''POST'' [(''Authorization'', ''Bearer s3cret'')] []))
     ''Authorization'' = ''Bearer '' @ ''s3cret'' \<and>
   isAuthorized (new_request ''POST'' [(''Authorization'', ''Bearer s3cret'')] []) ''s3cret'' \<and>
   \<not> isAuthorized (new_request ''POST'' [(''Authorization'', ''Bearer other'')] []) ''s3cret'' \<and>
   \<not> isAuthorized (new_request ''POST'' [(''Authorization'', ''Basic s3cret'')] []) ''s3cret'' \<and>
   length (Split (Header_Get (Header
     (new_request ''POST'' [(''Authorization'', ''Bearer s3cret now'')] [])) ''Authorization'')
     CHR '' '') = 3 \<and>
   \<not> isAuthorized (new_request ''POST'' [(''Authorization'', ''Bearer s3cret now'')] [])
     ''s3cret'' \<and>
   \<not> isAuthorized (new_request ''POST'' [(''Authorization'', ''Bearer'')] []) ''s3cret'' \<and>
   Header (new_request ''POST'' [] []) ''Authorization'' = None \<and>
   \<not> isAuthorized (new_request ''POST'' [] []) ''s3cret'' \<and>
   \<not> isAuthorized (new_request ''POST'' [(''Authorization'', [])] []) ''s3cret''"
proof -
  let ?req = "\<lambda>h. new_request ''POST'' [(''Authorization'', h)] []"
  have get: "Header_Get (Header (?req h)) ''Authorization'' = h" for h
    by (simp add: new_request_def Header_Get_def)
  have none: "Header (new_request ''POST'' [] []) ''Authorization'' = None"
    by (simp add: new_request_def)
  have s: "''s3cret'' \<noteq> []" "CHR '' '' \<notin> set ''s3cret''" "''other'' \<noteq> ''s3cret''"
    "''Basic'' \<noteq> ''Bearer''"
    by simp_all
  note c = isAuthorized_cases [where S = "''s3cret''" and T = "''other''" and scheme = "''Basic''"]
  have 1: "isAuthorized (new_request ''POST'' [] []) []"
    using c [of "new_request ''POST'' [] []"] by blast
  have 7: "\<not> isAuthorized (new_request ''POST'' [] []) ''s3cret''"
    using c [of "new_request ''POST'' [] []"] none s by blast
  have g2: "Header_Get (Header (?req ''Bearer s3cret'')) ''Authorization'' = ''Bearer '' @ ''s3cret''"
    by (simp add: get)
  have 2: "isAuthorized (?req ''Bearer s3cret'') ''s3cret''"
    using c [of "?req ''Bearer s3cret''"] g2 s by blast
  have g3: "Header_Get (Header (?req ''Bearer other'')) ''Authorization'' = ''Bearer '' @ ''other''"
    by (simp add: get)
  have 3: "\<not> isAuthorized (?req ''Bearer other'') ''s3cret''"
    using c [of "?req ''Bearer other''"] g3 s by blast
  have g4: "Header_Get (Header (?req ''Basic s3cret'')) ''Authorization''
      = ''Basic'' @ '' '' @ ''s3cret''"
    by (simp add: get)
  have 4: "\<not> isAuthorized (?req ''Basic s3cret'') ''s3cret''"
    using isAuthorized_cases [where S = "''s3cret''" and T = "''s3cret''" and scheme = "''Basic''",
        of "?req ''Basic s3cret''"] g4 s by blast
  have len: "length (Split (Header_Get (Header (?req ''Bearer s3cret now'')) ''Authorization'')
     CHR '' '') = 3"
    by (simp add: get)
  then have len5: "length (Split (Header_Get (Header (?req ''Bearer s3cret now''))
      ''Authorization'') CHR '' '') \<noteq> 2"
    by simp
  have 5: "\<not> isAuthorized (?req ''Bearer s3cret now'') ''s3cret''"
    using c [of "?req ''Bearer s3cret now''"] len5 s by blast
  have len6: "length (Split (Header_Get (Header (?req ''Bearer'')) ''Authorization'') CHR '' '')
      \<noteq> 2"
    by (simp add: get)
  have 6: "\<not> isAuthorized (?req ''Bearer'') ''s3cret''"
    using c [of "?req ''Bearer''"] len6 s by blast
  have g8: "Header_Get (Header (?req [])) ''Authorization'' = []"
    by (simp add: get)
  have 8: "\<not> isAuthorized (?req []) ''s3cret''"
    using c [of "?req []"] g8 s by blast
  show ?thesis
    using 1 2 3 4 5 6 7 8 len none g2 by blast
qed

subsection \<open>Decoding\<close>

text \<open>
  C4. \<^verbatim>\<open>decodeData\<close> fails for every request whose Content-Type is not exactly
  "application/json". For a request that passes this check and has a body, Content-Encoding
  "gzip" gives the gzip reader made from the body, "deflate" gives the zlib reader made
  from the body (in both cases whatever the constructor returns, its failure on a
  malformed stream header included), and any other value, an absent header included,
  gives back the body itself.
\<close>

theorem decodeData_cases:
  "(Header_Get (Header req) ''Content-Type'' \<noteq> ''application/json'' \<longrightarrow>
      decodeData lib req =
        Inl (errors_New (''invalid content type: '' @ Header_Get (Header req) ''Content-Type''))) \<and>
   (Header_Get (Header req) ''Content-Type'' = ''application/json'' \<and> Body req = Some body \<longrightarrow>
      (Header_Get (Header req) ''Content-Encoding'' = ''gzip'' \<longrightarrow>
         decodeData lib req = gzip_NewReader lib body) \<and>
      (Header_Get (Header req) ''Content-Encoding'' = ''deflate'' \<longrightarrow>
         decodeData lib req = zlib_NewReader lib body) \<and>
      (Header_Get (Header req) ''Content-Encoding'' \<notin> {''gzip'', ''deflate''} \<longrightarrow>
         decodeData lib req = Inr body) \<and>
      (Header req ''Content-Encoding'' = None \<longrightarrow> decodeData lib req = Inr body))"
  by (simp add: decodeData_def Header_Get_def)

theorem decodeData_cases_witness:
  "Header_Get (Header (new_request ''POST'' [(''Content-Type'', ''text/plain'')] ''{}''))
     ''Content-Type'' \<noteq> ''application/json'' \<and>
   decodeData example_library (new_request ''POST'' [(''Content-Type'', ''text/plain'')] ''{}'')
     = Inl (errors_New ''invalid content type: text/plain'') \<and>
   decodeData example_library (new_request ''POST''
       [(''Content-Type'', ''application/json''), (''Content-Encoding'', ''gzip'')] ''zipped'')
     = gzip_NewReader example_library (bytes_reader ''zipped'') \<and>
   decodeData example_library (new_request ''POST''
       [(''Content-Type'', ''application/json''), (''Content-Encoding'', ''deflate'')] ''zipped'')
     = zlib_NewReader example_library (bytes_reader ''zipped'') \<and>
   decodeData example_library (new_request ''POST''
       [(''Content-Type'', ''application/json''), (''Content-Encoding'', ''br'')] ''{}'')
     = Inr (bytes_reader ''{}'') \<and>
   decodeData example_library (new_request ''POST''
       [(''Content-Type'', ''application/json'')] ''{}'')
     = Inr (bytes_reader ''{}'')"
proof -
  let ?req = "\<lambda>hs b. new_request ''POST'' hs b"
  let ?json = "(''Content-Type'', ''application/json'')"
  have ct: "Header_Get (Header (?req (?json # hs) b)) ''Content-Type'' = ''application/json''"
    for hs b
    by (simp add: new_request_def Header_Get_def)
  have body: "Body (?req hs b) = Some (bytes_reader b)" for hs b
    by (simp add: new_request_def)
  have 1: "Header_Get (Header (?req [(''Content-Type'', ''text/plain'')] ''{}'')) ''Content-Type''
      = ''text/plain''"
    by (simp add: new_request_def Header_Get_def)
  then have n1: "Header_Get (Header (?req [(''Content-Type'', ''text/plain'')] ''{}''))
      ''Content-Type'' \<noteq> ''application/json''"
    by simp
  have a: "decodeData example_library (?req [(''Content-Type'', ''text/plain'')] ''{}'')
      = Inl (errors_New ''invalid content type: text/plain'')"
    using decodeData_cases [of "?req [(''Content-Type'', ''text/plain'')] ''{}''" example_library]
      1 n1 by simp
  have 2: "Header_Get (Header (?req [?json, (''Content-Encoding'', ''gzip'')] ''zipped''))
      ''Content-Encoding'' = ''gzip''"
    by (simp add: new_request_def Header_Get_def)
  have b: "decodeData example_library (?req [?json, (''Content-Encoding'', ''gzip'')] ''zipped'')
      = gzip_NewReader example_library (bytes_reader ''zipped'')"
    using decodeData_cases [of "?req [?json, (''Content-Encoding'', ''gzip'')] ''zipped''"
        example_library "bytes_reader ''zipped''"] ct body 2 by blast
  have 3: "Header_Get (Header (?req [?json, (''Content-Encoding'', ''deflate'')] ''zipped''))
      ''Content-Encoding'' = ''deflate''"
    by (simp add: new_request_def Header_Get_def)
  have c: "decodeData example_library (?req [?json, (''Content-Encoding'', ''deflate'')] ''zipped'')
      = zlib_NewReader example_library (bytes_reader ''zipped'')"
    using decodeData_cases [of "?req [?json, (''Content-Encoding'', ''deflate'')] ''zipped''"
        example_library "bytes_reader ''zipped''"] ct body 3 by blast
  have 4: "Header_Get (Header (?req [?json, (''Content-Encoding'', ''br'')] ''{}''))
      ''Content-Encoding'' \<notin> {''gzip'', ''deflate''}"
    by (simp add: new_request_def Header_Get_def)
  have d: "decodeData example_library (?req [?json, (''Content-Encoding'', ''br'')] ''{}'')
      = Inr (bytes_reader ''{}'')"
    using decodeData_cases [of "?req [?json, (''Content-Encoding'', ''br'')] ''{}''"
        example_library "bytes_reader ''{}''"] ct body 4 by blast
  have 5: "Header (?req [?json] ''{}'') ''Content-Encoding'' = None"
    by (simp add: new_request_def)
  have e: "decodeData example_library (?req [?json] ''{}'') = Inr (bytes_reader ''{}'')"
    using decodeData_cases [of "?req [?json] ''{}''" example_library "bytes_reader ''{}''"]
      ct body 5 by blast
  show ?thesis
    using n1 a b c d e by blast
qed

subsection \<open>The status responder\<close>

lemma HasPrefix_iff: "HasPrefix s p \<longleftrightarrow> (\<exists>v. s = p @ v)"
  by (induction s p rule: HasPrefix.induct) auto

lemma Contains_iff: "Contains s sub \<longleftrightarrow> (\<exists>u v. s = u @ sub @ v)"
proof (induction s)
  case Nil
  then show ?case by auto
next
  case (Cons c cs)
  show ?case
  proof
    assume "Contains (c # cs) sub"
    then consider "HasPrefix (c # cs) sub" | "Contains cs sub"
      by auto
    then show "\<exists>u v. c # cs = u @ sub @ v"
    proof cases
      case 1
      then obtain v where "c # cs = sub @ v"
        by (auto simp: HasPrefix_iff)
      then have "c # cs = [] @ sub @ v" by simp
      then show ?thesis by blast
    next
      case 2
      then obtain u v where "cs = u @ sub @ v"
        using Cons.IH by blast
      then have "c # cs = (c # u) @ sub @ v" by simp
      then show ?thesis by blast
    qed
  next
    assume "\<exists>u v. c # cs = u @ sub @ v"
    then obtain u v where uv: "c # cs = u @ sub @ v"
      by blast
    show "Contains (c # cs) sub"
    proof (cases u)
      case Nil
      with uv have "HasPrefix (c # cs) sub"
        by (auto simp: HasPrefix_iff)
      then show ?thesis by simp
    next
      case (Cons a u')
      with uv have "cs = u' @ sub @ v" by simp
      then have "Contains cs sub"
        using Cons.IH by blast
      then show ?thesis by simp
    qed
  qed
qed

lemma acceptsJSON_iff:
  "acceptsJSON r \<longleftrightarrow>
     (\<exists>u v. Header_Get (Header r) ''Accept'' = u @ ''*/*'' @ v) \<or>
     (\<exists>u v. Header_Get (Header r) ''Accept'' = u @ ''application/json'' @ v)"
  unfolding acceptsJSON_def Let_def Contains_iff ..

lemma Header_Get_Set: "Header_Get (Header_Set h k v) k = v"
  by (simp add: Header_Get_def Header_Set_def)

text \<open>
  C5. The response format follows the request's Accept header. \<^verbatim>\<open>acceptsJSON\<close> holds
  exactly when the header contains "*/*" or "application/json". On a response whose
  status line is not yet written, \<^verbatim>\<open>sendStatus\<close> sends the given status with
  Content-Type "application/json" if \<^verbatim>\<open>acceptsJSON\<close> holds and
  "text/plain; charset=utf-8" otherwise. For a failure, the body written is the JSON
  encoding of the object with the single member "error" holding the error's message in
  the first case, and the bare message in the second.
\<close>

theorem sendStatus_format:
  "(acceptsJSON r \<longleftrightarrow>
      (\<exists>u v. Header_Get (Header r) ''Accept'' = u @ ''*/*'' @ v) \<or>
      (\<exists>u v. Header_Get (Header r) ''Accept'' = u @ ''application/json'' @ v)) \<and>
   (wroteHeader w = None \<longrightarrow>
      (\<exists>h. wroteHeader (snd (sendStatus lib r c e s w)) = Some (c, h) \<and>
         Header_Get h ''Content-Type'' =
           (if acceptsJSON r then ''application/json'' else ''text/plain; charset=utf-8''))) \<and>
   (acceptsJSON r \<and> json_Marshal lib [(''error'', Error e')] = (buf, None) \<longrightarrow>
      written (snd (sendStatus lib r c (Some e') s w)) = written w @ buf) \<and>
   (\<not> acceptsJSON r \<longrightarrow>
      written (snd (sendStatus lib r c (Some e') s w)) = written w @ Error e')"
proof (intro conjI impI)
  show "acceptsJSON r \<longleftrightarrow>
      (\<exists>u v. Header_Get (Header r) ''Accept'' = u @ ''*/*'' @ v) \<or>
      (\<exists>u v. Header_Get (Header r) ''Accept'' = u @ ''application/json'' @ v)"
    by (rule acceptsJSON_iff)
next
  assume "wroteHeader w = None"
  then show "\<exists>h. wroteHeader (snd (sendStatus lib r c e s w)) = Some (c, h) \<and>
         Header_Get h ''Content-Type'' =
           (if acceptsJSON r then ''application/json'' else ''text/plain; charset=utf-8'')"
    by (cases "json_Marshal lib [(''error'', Error (the e))]")
      (auto simp: sendStatus_def sendJSON_def sendPlain_def WriteHeader_def Write_def Let_def
        Header_Get_Set split: option.splits)
next
  assume "acceptsJSON r \<and> json_Marshal lib [(''error'', Error e')] = (buf, None)"
  then show "written (snd (sendStatus lib r c (Some e') s w)) = written w @ buf"
    by (simp add: sendStatus_def sendJSON_def WriteHeader_def Write_def Let_def)
next
  assume "\<not> acceptsJSON r"
  then show "written (snd (sendStatus lib r c (Some e') s w)) = written w @ Error e'"
    by (simp add: sendStatus_def sendPlain_def WriteHeader_def Write_def Let_def)
qed


theorem sendStatus_format_witness:
  "acceptsJSON (new_request ''POST'' [(''Accept'', ''text/html, */*'')] []) \<and>
   wroteHeader NewResponseWriter = None \<and>
   json_Marshal example_library [(''error'', Error errInvalidToken)]
     = (''error=invalid token'', None) \<and>
   written (snd (sendStatus example_library
     (new_request ''POST'' [(''Accept'', ''text/html, */*'')] [])
     401 (Some errInvalidToken) initial_state NewResponseWriter)) = ''error=invalid token'' \<and>
   (\<exists>h. wroteHeader (snd (sendStatus example_library
     (new_request ''POST'' [(''Accept'', ''text/html, */*'')] [])
     401 (Some errInvalidToken) initial_state NewResponseWriter)) = Some (401, h) \<and>
     Header_Get h ''Content-Type'' = ''application/json'') \<and>
   \<not> acceptsJSON (new_request ''POST'' [(''Accept'', ''text/html'')] []) \<and>
   written (snd (sendStatus example_library
     (new_request ''POST'' [(''Accept'', ''text/html'')] [])
     401 (Some errInvalidToken) initial_state NewResponseWriter)) = ''invalid token'' \<and>
   (\<exists>h. wroteHeader (snd (sendStatus example_library
     (new_request ''POST'' [(''Accept'', ''text/html'')] [])
     401 (Some errInvalidToken) initial_state NewResponseWriter)) = Some (401, h) \<and>
     Header_Get h ''Content-Type'' = ''text/plain; charset=utf-8'')"
proof -
  let ?r1 = "new_request ''POST'' [(''Accept'', ''text/html, */*'')] []"
  let ?r2 = "new_request ''POST'' [(''Accept'', ''text/html'')] []"
  have a1: "acceptsJSON ?r1"
    by (simp add: acceptsJSON_def new_request_def Header_Get_def)
  have a2: "\<not> acceptsJSON ?r2"
    by (simp add: acceptsJSON_def new_request_def Header_Get_def)
  have w: "wroteHeader NewResponseWriter = None" "written NewResponseWriter = []"
    by (simp_all add: NewResponseWriter_def)
  have m: "json_Marshal example_library [(''error'', Error errInvalidToken)]
      = (''error=invalid token'', None)"
    by (simp add: example_library_def errInvalidToken_def)
  have e: "Error errInvalidToken = ''invalid token''"
    by (simp add: errInvalidToken_def)
  note f1 = sendStatus_format [of ?r1 NewResponseWriter example_library 401
      "Some errInvalidToken" initial_state errInvalidToken "''error=invalid token''"]
  note f2 = sendStatus_format [of ?r2 NewResponseWriter example_library 401
      "Some errInvalidToken" initial_state errInvalidToken "''error=invalid token''"]
  have b1: "written (snd (sendStatus example_library ?r1 401 (Some errInvalidToken)
      initial_state NewResponseWriter)) = ''error=invalid token''"
    using f1 a1 m w by simp
  have h1: "\<exists>h. wroteHeader (snd (sendStatus example_library ?r1 401 (Some errInvalidToken)
      initial_state NewResponseWriter)) = Some (401, h) \<and>
      Header_Get h ''Content-Type'' = ''application/json''"
    using f1 a1 w by simp
  have b2: "written (snd (sendStatus example_library ?r2 401 (Some errInvalidToken)
      initial_state NewResponseWriter)) = ''invalid token''"
    using f2 a2 w e by simp
  have h2: "\<exists>h. wroteHeader (snd (sendStatus example_library ?r2 401 (Some errInvalidToken)
      initial_state NewResponseWriter)) = Some (401, h) \<and>
      Header_Get h ''Content-Type'' = ''text/plain; charset=utf-8''"
    using f2 a2 w by simp
  show ?thesis
    using a1 a2 w(1) m b1 h1 b2 h2 by blast
qed

subsection \<open>The size-limited read\<close>

text \<open>
  What \<^verbatim>\<open>ioutil.ReadAll(io.LimitReader(r, n))\<close> returns, for every reader, every limit
  and every growth policy of the buffer: nothing when the limit is not positive; the first \<open>n\<close> bytes and no error when
  the reader holds more than \<open>n\<close>; otherwise everything the reader holds, with the
  reader's own error if it reports one before the limit cuts it off.
\<close>

lemma ReadAll_loop_limited:
  "ReadAll_loop room l buf =
     (if N l \<le> 0 then (buf, None)
      else if N l < int (length (pending (R l)))
        then (buf @ take (nat (N l)) (pending (R l)), None)
      else if N l = int (length (pending (R l))) \<and> \<not> eager (R l)
        then (buf @ pending (R l), None)
      else (buf @ pending (R l), ending (R l)))"
proof (induction room l buf rule: ReadAll_loop.induct)
  case (1 room l buf)
  define m where "m = max MinRead (room (length buf))"
  have loop: "ReadAll_loop room l buf =
      (case LimitedReader_Read l m of
         (bs, None, l') \<Rightarrow> ReadAll_loop room l' (buf @ bs)
       | (bs, Some EOF, l') \<Rightarrow> (buf @ bs, None)
       | (bs, Some (Failure e), l') \<Rightarrow> (buf @ bs, Some e))"
    unfolding m_def by (rule ReadAll_loop.simps)
  let ?p = "pending (R l)"
  show ?case
  proof (cases "N l \<le> 0")
    case True
    then show ?thesis
      by (simp add: loop LimitedReader_Read_def)
  next
    case pos: False
    define k where "k = (if int m > N l then nat (N l) else m)"
    have k: "0 < k" "int k \<le> N l"
      using pos by (auto simp: k_def m_def MinRead_def)
    have lr: "LimitedReader_Read l m =
        (case Read (R l) k of (bs, e, r') \<Rightarrow> (bs, e, l\<lparr>R := r', N := N l - int (length bs)\<rparr>))"
      using pos by (simp add: LimitedReader_Read_def k_def Let_def)
    show ?thesis
    proof (cases "?p = []")
      case True
      then show ?thesis
        using pos
        by (simp add: loop lr Read_def reader_end_def
            split: option.splits)
    next
      case ne: False
      show ?thesis
      proof (cases "length ?p \<le> k \<and> eager (R l)")
        case True
        then show ?thesis
          using pos ne k
          by (auto simp: loop lr Read_def reader_end_def
              split: option.splits)
      next
        case False
        define l' where
          "l' = l\<lparr>R := (R l)\<lparr>pending := drop k ?p\<rparr>, N := N l - int (length (take k ?p))\<rparr>"
        have rd: "LimitedReader_Read l m = (take k ?p, None, l')"
          using False ne by (simp add: lr Read_def l'_def)
        have step: "ReadAll_loop room l buf = ReadAll_loop room l' (buf @ take k ?p)"
          by (simp add: loop rd)
        note IH = "1.IH" [OF rd [unfolded m_def, symmetric] refl refl]
        have l'R: "pending (R l') = drop k ?p" "eager (R l') = eager (R l)"
          "ending (R l') = ending (R l)" "N l' = N l - int (min (length ?p) k)"
          by (simp_all add: l'_def)
        show ?thesis
        proof (cases "k < length ?p")
          case True
          have tk: "take k ?p @ take (nat (N l) - k) (drop k ?p) = take (nat (N l)) ?p"
            using k take_add [of k "nat (N l) - k" ?p] by simp
          show ?thesis
            unfolding step IH l'R
            using True k pos tk by (auto simp: min_def nat_diff_distrib)
        next
          case short: False
          with False have "\<not> eager (R l)" by simp
          then show ?thesis
            unfolding step IH l'R
            using short k pos by (auto simp: min_def)
        qed
      qed
    qed
  qed
qed

lemma ReadAll_LimitReader:
  "ReadAll room (LimitReader r n) =
     (if n \<le> 0 then ([], None)
      else if n < int (length (pending r)) then (take (nat n) (pending r), None)
      else if n = int (length (pending r)) \<and> \<not> eager r then (pending r, None)
      else (pending r, ending r))"
  by (simp add: ReadAll_def LimitReader_def ReadAll_loop_limited)

lemma ReadAll_oversize:
  "n < int (length (pending r)) \<Longrightarrow>
     ReadAll room (LimitReader r n) = (take (nat n) (pending r), None)"
  by (simp add: ReadAll_LimitReader)

text \<open>The read-error branch is live: a reader that fails within the limit gives 500.\<close>

lemma read_error_gives_500:
  assumes "Method r = ''POST''" and "decodeData lib r = Inr rd"
    and "int (length (pending rd)) < maxSize" and "ending rd = Some e"
  shows "processRequest lib r p maxSize report =
    \<lparr>code = 500, err = Some (errors_New (''Data read error: '' @ Error e)),
     calls = [Close_call]\<rparr>"
  using assms by (simp add: processRequest_def ReadAll_LimitReader)

lemma processRequest_after_read:
  assumes "Method r = ''POST''" and "decodeData lib r = Inr rd"
    and "ReadAll (buffer_room lib) (LimitReader rd maxSize) = (buf, None)"
  shows "code (processRequest lib r p maxSize report) \<noteq> 500 \<and>
    (\<forall>b. Validate_call b \<in> set (calls (processRequest lib r p maxSize report))
       \<longleftrightarrow> b = buf)"
  using assms
  by (auto simp: processRequest_def split: option.splits prod.splits)

lemmas example_defs =
  new_request_def bytes_reader_def example_library_def accepting_def rejecting_def
  delivering_def Header_Get_def decodeData_def

subsection \<open>The request pipeline\<close>

text \<open>
  C1, as amended. For every POST request that decodes successfully and whose decompressed
  body is longer than a non-negative \<open>maxSize\<close>, the pipeline never passes the
  fully-buffered payload to \<^verbatim>\<open>Validate\<close>: the read stops after \<open>maxSize\<close> bytes without
  any read or size error (the status is not 500), and \<^verbatim>\<open>Validate\<close> is invoked, on a
  buffer of exactly \<open>maxSize\<close> bytes, the head of the body.
\<close>

theorem oversize_never_fully_buffered:
  assumes "Method r = ''POST''" and "decodeData lib r = Inr rd"
    and "0 \<le> maxSize" and "maxSize < int (length (pending rd))"
  shows "code (processRequest lib r p maxSize report) \<noteq> 500 \<and>
    Validate_call (pending rd) \<notin> set (calls (processRequest lib r p maxSize report)) \<and>
    (\<exists>buf. Validate_call buf \<in> set (calls (processRequest lib r p maxSize report))) \<and>
    (\<forall>buf. Validate_call buf \<in> set (calls (processRequest lib r p maxSize report)) \<longrightarrow>
       int (length buf) = maxSize \<and> buf = take (nat maxSize) (pending rd))"
proof -
  define buf where "buf = take (nat maxSize) (pending rd)"
  let ?out = "processRequest lib r p maxSize report"
  have rd: "ReadAll (buffer_room lib) (LimitReader rd maxSize) = (buf, None)"
    unfolding buf_def using assms(4) by (rule ReadAll_oversize)
  have len: "int (length buf) = maxSize"
    unfolding buf_def using assms(3,4) by simp
  have "length buf \<noteq> length (pending rd)"
    using len assms(4) by linarith
  then have ne: "buf \<noteq> pending rd"
    by metis
  note after = processRequest_after_read [OF assms(1,2) rd, of p report]
  have c: "code ?out \<noteq> 500"
    using after by blast
  have v: "Validate_call b \<in> set (calls ?out) \<longleftrightarrow> b = buf" for b
    using after by blast
  have "Validate_call (pending rd) \<notin> set (calls ?out)"
    using v ne by metis
  moreover have "\<exists>b. Validate_call b \<in> set (calls ?out)"
    using v by metis
  moreover have "\<forall>b. Validate_call b \<in> set (calls ?out) \<longrightarrow>
      int (length b) = maxSize \<and> b = take (nat maxSize) (pending rd)"
    using v len buf_def by metis
  ultimately show ?thesis
    using c by blast
qed

text \<open>
  C1 as stated fails: a three-byte body under a limit of two bytes is not answered with
  status 500; its first two bytes are validated, transformed and reported, and the
  request is accepted.
\<close>

theorem oversize_not_rejected:
  "processRequest example_library
     (new_request ''POST'' [(''Content-Type'', ''application/json'')] ''abc'')
     accepting 2 delivering
   = \<lparr>code = 202, err = None,
      calls = [Validate_call ''ab'', Transform_call ''ab'', report_call [], Close_call]\<rparr>"
  by (simp add: processRequest_def example_defs ReadAll_LimitReader)

theorem oversize_never_fully_buffered_witness:
  "Method (new_request ''POST'' [(''Content-Type'', ''application/json'')] ''abcdef'') = ''POST'' \<and>
   decodeData example_library
     (new_request ''POST'' [(''Content-Type'', ''application/json'')] ''abcdef'')
     = Inr (bytes_reader ''abcdef'') \<and>
   (0 :: int) \<le> 3 \<and>
   (3 :: int) < int (length (pending (bytes_reader ''abcdef''))) \<and>
   code (processRequest example_library
     (new_request ''POST'' [(''Content-Type'', ''application/json'')] ''abcdef'')
     accepting 3 delivering) \<noteq> 500 \<and>
   Validate_call (pending (bytes_reader ''abcdef''))
     \<notin> set (calls (processRequest example_library
       (new_request ''POST'' [(''Content-Type'', ''application/json'')] ''abcdef'')
       accepting 3 delivering))"
proof -
  let ?r = "new_request ''POST'' [(''Content-Type'', ''application/json'')] ''abcdef''"
  have m: "Method ?r = ''POST''"
    by (simp add: new_request_def)
  have d: "decodeData example_library ?r = Inr (bytes_reader ''abcdef'')"
    by (simp add: example_defs)
  have z: "(0 :: int) \<le> 3"
    by simp
  have n: "(3 :: int) < int (length (pending (bytes_reader ''abcdef'')))"
    by (simp add: bytes_reader_def)
  from oversize_never_fully_buffered [OF m d z n, of accepting delivering] m d n
  show ?thesis
    by simp
qed

text \<open>
  C2. The outcome of \<^verbatim>\<open>processRequest\<close> always has a status among 202, 400, 401, 405,
  500 and 503, and its error is non-nil exactly when the status is not 202.
\<close>

theorem processRequest_outcome:
  "code (processRequest lib r p maxSize report) \<in> {202, 400, 401, 405, 500, 503} \<and>
   (err (processRequest lib r p maxSize report) \<noteq> None
      \<longleftrightarrow> code (processRequest lib r p maxSize report) \<noteq> 202)"
  by (simp add: processRequest_def split: sum.splits prod.splits option.splits)

theorem processRequest_outcome_witness:
  "code (processRequest example_library
      (new_request ''POST'' [(''Content-Type'', ''text/plain'')] ''{}'') accepting 100 delivering)
     \<in> {202, 400, 401, 405, 500, 503} \<and>
   (err (processRequest example_library
      (new_request ''POST'' [(''Content-Type'', ''text/plain'')] ''{}'') accepting 100 delivering)
      \<noteq> None
    \<longleftrightarrow> code (processRequest example_library
      (new_request ''POST'' [(''Content-Type'', ''text/plain'')] ''{}'') accepting 100 delivering)
      \<noteq> 202)"
  by (rule processRequest_outcome)

text \<open>
  C6, as amended. For every request with a method other than POST, \<^verbatim>\<open>processRequest\<close>
  returns status 405 with the error \<^verbatim>\<open>errPOSTRequestOnly\<close>, whose message is
  "only POST requests are supported", and calls none of its collaborators, whatever the
  headers and the body are.
\<close>

theorem method_not_POST:
  "Method r \<noteq> ''POST'' \<Longrightarrow>
     processRequest lib r p maxSize report =
       \<lparr>code = 405, err = Some (errors_New ''only POST requests are supported''), calls = []\<rparr>"
  by (simp add: processRequest_def errPOSTRequestOnly_def)

text \<open>C6 as stated fails: the error of a GET request does not read "method not allowed".\<close>

theorem method_message_differs:
  "err (processRequest example_library (new_request ''GET'' [] []) accepting 100 delivering)
     \<noteq> Some (errors_New ''method not allowed'')"
  by (simp add: processRequest_def new_request_def errPOSTRequestOnly_def)

theorem method_not_POST_witness:
  "Method (new_request ''GET'' [] []) \<noteq> ''POST'' \<and>
   processRequest example_library (new_request ''GET'' [] []) accepting 100 delivering =
     \<lparr>code = 405, err = Some (errors_New ''only POST requests are supported''), calls = []\<rparr>"
proof -
  have m: "Method (new_request ''GET'' [] []) \<noteq> ''POST''"
    by (simp add: new_request_def)
  from method_not_POST [OF m] m show ?thesis
    by simp
qed

text \<open>
  C7. For every POST request that decodes successfully and whose size-limited read
  returns a buffer without a read error: if \<^verbatim>\<open>Validate\<close> returns an error for that
  buffer, \<^verbatim>\<open>processRequest\<close> returns status 400 with that very error value, neither
  wrapped nor prefixed, and calls neither \<^verbatim>\<open>Transform\<close> nor the reporter.
\<close>

theorem validate_error_passthrough:
  assumes "Method r = ''POST''" and "decodeData lib r = Inr rd"
    and "ReadAll (buffer_room lib) (LimitReader rd maxSize) = (buf, None)"
    and "Validate p buf = Some e"
  shows "processRequest lib r p maxSize report =
    \<lparr>code = 400, err = Some e, calls = [Validate_call buf, Close_call]\<rparr>"
  using assms by (simp add: processRequest_def)

theorem validate_error_passthrough_witness:
  "Method (new_request ''POST'' [(''Content-Type'', ''application/json'')] ''bad'') = ''POST'' \<and>
   decodeData example_library
     (new_request ''POST'' [(''Content-Type'', ''application/json'')] ''bad'')
     = Inr (bytes_reader ''bad'') \<and>
   ReadAll (buffer_room example_library) (LimitReader (bytes_reader ''bad'') 100)
     = (''bad'', None) \<and>
   Validate rejecting ''bad''
     = Some (errors_New ''Problem validating JSON document against schema'') \<and>
   processRequest example_library
     (new_request ''POST'' [(''Content-Type'', ''application/json'')] ''bad'')
     rejecting 100 delivering
     = \<lparr>code = 400,
        err = Some (errors_New ''Problem validating JSON document against schema''),
        calls = [Validate_call ''bad'', Close_call]\<rparr>"
proof -
  let ?r = "new_request ''POST'' [(''Content-Type'', ''application/json'')] ''bad''"
  have m: "Method ?r = ''POST''"
    by (simp add: new_request_def)
  have d: "decodeData example_library ?r = Inr (bytes_reader ''bad'')"
    by (simp add: example_defs)
  have rd: "ReadAll (buffer_room example_library) (LimitReader (bytes_reader ''bad'') 100)
      = (''bad'', None)"
    by (simp add: ReadAll_LimitReader bytes_reader_def)
  have v: "Validate rejecting ''bad'' =
      Some (errors_New ''Problem validating JSON document against schema'')"
    by (simp add: rejecting_def)
  from validate_error_passthrough [OF m d rd v, of delivering] m d rd v show ?thesis
    by simp
qed



subsection \<open>The health check\<close>

lemma newMuxer_healthcheck:
  "newMuxer lib config report registry s0 = Some (s1, mux) \<Longrightarrow>
     mux ''/healthcheck'' = Some healthcheck"
  by (auto simp: newMuxer_def mux_Handle_def split: option.splits if_splits)

lemma healthcheck_once:
  "healthcheck r s NewResponseWriter =
     (s\<lparr>requestCounter := requestCounter s + 1, responseValid := responseValid s + 1\<rparr>,
      NewResponseWriter\<lparr>wroteHeader := Some (200, Map.empty)\<rparr>)"
  by (simp add: healthcheck_def WriteHeader_def NewResponseWriter_def Let_def)

lemma serve_all_healthcheck:
  "serve_all healthcheck rs s =
     (s\<lparr>requestCounter := requestCounter s + of_nat (length rs),
        responseValid := responseValid s + of_nat (length rs)\<rparr>,
      replicate (length rs) (NewResponseWriter\<lparr>wroteHeader := Some (200, Map.empty)\<rparr>))"
proof (induction rs arbitrary: s)
  case Nil
  show ?case by simp
next
  case (Cons r rs)
  show ?case
    by (simp add: healthcheck_once Cons.IH add.assoc add.commute)
qed

text \<open>
  C9. Whenever \<^verbatim>\<open>newMuxer\<close> builds its route table, whatever the secret token and the
  registered processors are, the handler registered for "/healthcheck" answers every
  request, with or without an Authorization header, with status 200, adds exactly one
  to the request counter and one to the valid-response counter (64-bit additions), and
  leaves the error-response counter as it was; after any number of calls the two
  counters have grown by the number of calls, every response has status 200 and the
  error-response counter is still unchanged.
\<close>

theorem healthcheck_counts:
  assumes "newMuxer lib config report registry s0 = Some (s1, mux)"
  shows "\<exists>h. mux ''/healthcheck'' = Some h \<and>
    (\<forall>r s. case h r s NewResponseWriter of
       (s', w) \<Rightarrow>
         map_option fst (wroteHeader w) = Some 200 \<and>
         requestCounter s' = requestCounter s + 1 \<and>
         responseValid s' = responseValid s + 1 \<and>
         responseErrors s' = responseErrors s) \<and>
    (\<forall>rs s. case serve_all h rs s of
       (s', ws) \<Rightarrow>
         map (\<lambda>w. map_option fst (wroteHeader w)) ws = replicate (length rs) (Some 200) \<and>
         requestCounter s' = requestCounter s + of_nat (length rs) \<and>
         responseValid s' = responseValid s + of_nat (length rs) \<and>
         responseErrors s' = responseErrors s)"
proof -
  have "mux ''/healthcheck'' = Some healthcheck"
    using assms by (rule newMuxer_healthcheck)
  then show ?thesis
    by (simp add: healthcheck_once serve_all_healthcheck)
qed

theorem healthcheck_counts_witness:
  "\<exists>s1 mux.
     newMuxer example_library example_config delivering [(''/v1/errors'', accepting)]
       initial_state = Some (s1, mux) \<and>
     (\<exists>h. mux ''/healthcheck'' = Some h \<and>
        map_option fst (wroteHeader (snd (h (new_request ''GET'' [] []) initial_state
          NewResponseWriter))) = Some 200 \<and>
        requestCounter (fst (h (new_request ''GET'' [] []) initial_state NewResponseWriter)) = 1 \<and>
        responseValid (fst (h (new_request ''GET'' [] []) initial_state NewResponseWriter)) = 1 \<and>
        responseErrors (fst (h (new_request ''GET'' [] []) initial_state NewResponseWriter)) = 0 \<and>
        requestCounter (fst (serve_all h
          [new_request ''GET'' [] [], new_request ''GET'' [] [], new_request ''GET'' [] []]
          initial_state)) = 3 \<and>
        responseErrors (fst (serve_all h
          [new_request ''GET'' [] [], new_request ''GET'' [] [], new_request ''GET'' [] []]
          initial_state)) = 0)"
proof -
  let ?r = "new_request ''GET'' [] []"
  obtain s1 mux where nm:
    "newMuxer example_library example_config delivering [(''/v1/errors'', accepting)]
       initial_state = Some (s1, mux)"
    by (simp add: newMuxer_def mux_Handle_def Let_def)
  from healthcheck_counts [OF nm] obtain h where h: "mux ''/healthcheck'' = Some h"
    and one: "\<And>r s. case h r s NewResponseWriter of
       (s', w) \<Rightarrow>
         map_option fst (wroteHeader w) = Some 200 \<and>
         requestCounter s' = requestCounter s + 1 \<and>
         responseValid s' = responseValid s + 1 \<and>
         responseErrors s' = responseErrors s"
    and many: "\<And>rs s. case serve_all h rs s of
       (s', ws) \<Rightarrow>
         map (\<lambda>w. map_option fst (wroteHeader w)) ws = replicate (length rs) (Some 200) \<and>
         requestCounter s' = requestCounter s + of_nat (length rs) \<and>
         responseValid s' = responseValid s + of_nat (length rs) \<and>
         responseErrors s' = responseErrors s"
    by blast
  have i: "requestCounter initial_state = 0" "responseValid initial_state = 0"
    "responseErrors initial_state = 0"
    by (simp_all add: initial_state_def)
  from one [where r = "?r" and s = initial_state] i
  have a: "map_option fst (wroteHeader (snd (h ?r initial_state NewResponseWriter))) = Some 200"
    "requestCounter (fst (h ?r initial_state NewResponseWriter)) = 1"
    "responseValid (fst (h ?r initial_state NewResponseWriter)) = 1"
    "responseErrors (fst (h ?r initial_state NewResponseWriter)) = 0"
    by (simp_all add: case_prod_unfold)
  from many [where rs = "[?r, ?r, ?r]" and s = initial_state] i
  have b: "requestCounter (fst (serve_all h [?r, ?r, ?r] initial_state)) = 3"
    "responseErrors (fst (serve_all h [?r, ?r, ?r] initial_state)) = 0"
    by (simp_all add: case_prod_unfold)
  from nm h a b show ?thesis
    by blast
qed

subsection \<open>Stopping the server\<close>

text \<open>
  C8, as amended. \<^verbatim>\<open>stop\<close> attempts a graceful shutdown under a context that expires
  after the configured timeout. If and only if the shutdown returns an error (a timeout
  included), it logs that error and force-closes all connections; if the forced close
  fails too, that second error is logged as well. In every case \<^verbatim>\<open>stop\<close> returns
  normally: the failure of the forced close is only logged, nothing is propagated to the
  caller.
\<close>

theorem stop_behaviour:
  "server_calls (stop server timeout s) =
     (if Shutdown server timeout = None then [Shutdown_call timeout]
      else [Shutdown_call timeout, server_Close_call]) \<and>
   (server_Close_call \<in> set (server_calls (stop server timeout s))
      \<longleftrightarrow> Shutdown server timeout \<noteq> None) \<and>
   logged (state_after (stop server timeout s)) =
     logged s @
       (case Shutdown server timeout of
          None \<Rightarrow> []
        | Some e \<Rightarrow>
            logp_Err (Error e) [] #
              (case Close server of None \<Rightarrow> [] | Some e' \<Rightarrow> [logp_Err (Error e') []])) \<and>
   propagated (stop server timeout s) = None"
  by (simp add: stop_def logp_def Let_def split: option.splits)

text \<open>
  C8 as stated fails: when the shutdown times out and the forced close fails, both errors
  are logged and \<^verbatim>\<open>stop\<close> propagates nothing.
\<close>

theorem close_failure_not_propagated:
  "Shutdown failing_server 5000000000 = Some (errors_New ''context deadline exceeded'') \<and>
   Close failing_server = Some (errors_New ''close tcp: use of closed network connection'') \<and>
   propagated (stop failing_server 5000000000 initial_state) = None \<and>
   logged (state_after (stop failing_server 5000000000 initial_state)) =
     [logp_Err ''context deadline exceeded'' [],
      logp_Err ''close tcp: use of closed network connection'' []]"
  by (simp add: stop_def failing_server_def logp_def initial_state_def)

theorem stop_behaviour_witness:
  "server_calls (stop failing_server 5000000000 initial_state) =
     [Shutdown_call 5000000000, server_Close_call] \<and>
   server_Close_call \<in> set (server_calls (stop failing_server 5000000000 initial_state)) \<and>
   logged (state_after (stop failing_server 5000000000 initial_state)) =
     [logp_Err ''context deadline exceeded'' [],
      logp_Err ''close tcp: use of closed network connection'' []] \<and>
   propagated (stop failing_server 5000000000 initial_state) = None"
  using stop_behaviour [of failing_server 5000000000 initial_state]
  by (simp add: failing_server_def initial_state_def)

end
